theory Spec2Isabelle
  imports Complex_Main "HOL-Library.Log_Nat"
begin

section \<open>Strings\<close>

text \<open>
  A string is the list of its characters. \<open>startsWith\<close>, \<open>endsWith\<close> and \<open>replace\<close> are the
  methods of \<open>String.prototype\<close> of those names, at the arguments the services give them.
\<close>

definition startsWith :: "string \<Rightarrow> string \<Rightarrow> bool" where
  "startsWith s p = (take (length p) s = p)"

definition endsWith :: "string \<Rightarrow> string \<Rightarrow> bool" where
  "endsWith s suf = (length suf \<le> length s \<and> drop (length s - length suf) s = suf)"

text \<open>\<open>s.replace(pat, rep)\<close> with a string pattern replaces the first occurrence only.\<close>

fun replace :: "string \<Rightarrow> string \<Rightarrow> string \<Rightarrow> string" where
  "replace [] pat rep = (if pat = [] then rep else [])"
| "replace (c # cs) pat rep =
     (if startsWith (c # cs) pat then rep @ drop (length pat) (c # cs)
      else c # replace cs pat rep)"

section \<open>JavaScript objects used as tables\<close>

text \<open>
  A plain object is the list of its own properties in creation order. Assigning to a key
  that is an own property overwrites the value and keeps the position; assigning to a new
  key appends it, except that \<open>obj["__proto__"] = v\<close> on an object without such an own
  property goes to the accessor inherited from \<open>Object.prototype\<close> and creates no own
  property.
\<close>

type_synonym 'v object = "(string \<times> 'v) list"

definition hasOwnProperty :: "'v object \<Rightarrow> string \<Rightarrow> bool" where
  "hasOwnProperty obj k = (map_of obj k \<noteq> None)"

fun overwrite :: "string \<Rightarrow> 'v \<Rightarrow> 'v object \<Rightarrow> 'v object" where
  "overwrite k v [] = []"
| "overwrite k v ((k', v') # rest) =
     (if k' = k then (k, v) # rest else (k', v') # overwrite k v rest)"

definition js_set :: "string \<Rightarrow> 'v \<Rightarrow> 'v object \<Rightarrow> 'v object" where
  "js_set k v obj =
     (if hasOwnProperty obj k then overwrite k v obj
      else if k = ''__proto__'' then obj
      else obj @ [(k, v)])"

text \<open>
  \<open>Object.keys\<close> lists the keys that are array indices (canonical decimal numerals below
  \<open>2^32 - 1\<close>) first, in ascending numeric order, and then the other keys in creation
  order.
\<close>

definition is_digit :: "char \<Rightarrow> bool" where
  "is_digit c = (let n = (of_char c :: nat) in 48 \<le> n \<and> n \<le> 57)"

definition index_value :: "string \<Rightarrow> int" where
  "index_value s = foldl (\<lambda>acc c. 10 * acc + ((of_char c :: int) - 48)) 0 s"

definition is_array_index :: "string \<Rightarrow> bool" where
  "is_array_index s =
     (s \<noteq> [] \<and> list_all is_digit s \<and> (hd s \<noteq> CHR ''0'' \<or> length s = 1)
      \<and> length s \<le> 10 \<and> index_value s < 4294967295)"

definition js_keys :: "'v object \<Rightarrow> string list" where
  "js_keys obj =
     sort_key index_value (filter is_array_index (map fst obj))
     @ filter (\<lambda>k. \<not> is_array_index k) (map fst obj)"

text \<open>
  Reading \<open>obj[k]\<close> finds an own property, or else a property inherited from
  \<open>Object.prototype\<close>, or else nothing (\<open>undefined\<close>).
\<close>

definition object_prototype_names :: "string list" where
  "object_prototype_names =
     [''constructor'', ''__defineGetter__'', ''__defineSetter__'', ''hasOwnProperty'',
      ''__lookupGetter__'', ''__lookupSetter__'', ''isPrototypeOf'',
      ''propertyIsEnumerable'', ''toString'', ''valueOf'', ''__proto__'',
      ''toLocaleString'']"

datatype 'v property = OwnProp 'v | InheritedProp | NoProp

definition js_get :: "'v object \<Rightarrow> string \<Rightarrow> 'v property" where
  "js_get obj k =
     (case map_of obj k of
        Some v \<Rightarrow> OwnProp v
      | None \<Rightarrow> if k \<in> set object_prototype_names then InheritedProp else NoProp)"

section \<open>Numbers\<close>

text \<open>
  A number is an IEEE 754 double: \<open>NaN\<close>, one of the two infinities, or a finite value,
  held as the rational it denotes. The two zeros are one value here; \<open>===\<close>, \<open>>=\<close> and
  \<open>JSON.stringify\<close> do not tell them apart either.
\<close>

datatype number = NaN | PosInfinity | NegInfinity | Finite rat

text \<open>\<open>pow2 k\<close> is \<open>2\<close> to the power \<open>k\<close>, for an integer \<open>k\<close> of either sign.\<close>

definition pow2 :: "int \<Rightarrow> rat" where
  "pow2 k = (if 0 \<le> k then of_int (2 ^ nat k) else 1 / of_int (2 ^ nat (- k)))"

text \<open>The nearest integer, a tie going to the even one.\<close>

definition round_half_even :: "rat \<Rightarrow> int" where
  "round_half_even x =
     (let f = \<lfloor>x\<rfloor>; d = x - of_int f
      in if d < 1 / 2 then f else if 1 / 2 < d then f + 1 else if even f then f else f + 1)"

text \<open>For \<open>x > 0\<close>, the exponent \<open>e\<close> with \<open>2^e \<le> x < 2^(e+1)\<close>.\<close>

definition floor_log2 :: "rat \<Rightarrow> int" where
  "floor_log2 x =
     (let (p, q) = quotient_of x; e = bitlen p - bitlen q
      in if pow2 e \<le> x then e else e - 1)"

text \<open>
  \<open>round64 x\<close> is the double that an arithmetic operation with the exact result \<open>x\<close>
  returns: \<open>x\<close> rounded to a significand of 53 bits (to a multiple of \<open>2^-1074\<close> below
  \<open>2^-1022\<close>), a tie going to the even significand, and an infinity when the rounded value
  reaches \<open>2^1024\<close>.
\<close>

definition round64 :: "rat \<Rightarrow> number" where
  "round64 x =
     (if x = 0 then Finite 0
      else (let u = pow2 (max (floor_log2 \<bar>x\<bar>) (- 1022) - 52);
                r = of_int (round_half_even (x / u)) * u
            in if r = 0 then Finite 0
               else if 1024 \<le> floor_log2 \<bar>r\<bar> then (if 0 < r then PosInfinity else NegInfinity)
               else Finite r))"

text \<open>A rational is a double when rounding leaves it as it is.\<close>

definition is_double :: "rat \<Rightarrow> bool" where
  "is_double x = (round64 x = Finite x)"

fun js_add :: "number \<Rightarrow> number \<Rightarrow> number" where
  "js_add (Finite a) (Finite b) = round64 (a + b)"
| "js_add NaN _ = NaN"
| "js_add _ NaN = NaN"
| "js_add PosInfinity NegInfinity = NaN"
| "js_add NegInfinity PosInfinity = NaN"
| "js_add PosInfinity _ = PosInfinity"
| "js_add _ PosInfinity = PosInfinity"
| "js_add NegInfinity _ = NegInfinity"
| "js_add _ NegInfinity = NegInfinity"

fun js_mul :: "number \<Rightarrow> number \<Rightarrow> number" where
  "js_mul (Finite a) (Finite b) = round64 (a * b)"
| "js_mul NaN _ = NaN"
| "js_mul _ NaN = NaN"
| "js_mul (Finite a) PosInfinity =
     (if a = 0 then NaN else if 0 < a then PosInfinity else NegInfinity)"
| "js_mul (Finite a) NegInfinity =
     (if a = 0 then NaN else if 0 < a then NegInfinity else PosInfinity)"
| "js_mul PosInfinity (Finite b) =
     (if b = 0 then NaN else if 0 < b then PosInfinity else NegInfinity)"
| "js_mul NegInfinity (Finite b) =
     (if b = 0 then NaN else if 0 < b then NegInfinity else PosInfinity)"
| "js_mul PosInfinity PosInfinity = PosInfinity"
| "js_mul PosInfinity NegInfinity = NegInfinity"
| "js_mul NegInfinity PosInfinity = NegInfinity"
| "js_mul NegInfinity NegInfinity = PosInfinity"

text \<open>\<open>a >= b\<close> on numbers; a comparison with \<open>NaN\<close> is false.\<close>

fun js_ge :: "number \<Rightarrow> number \<Rightarrow> bool" where
  "js_ge NaN _ = False"
| "js_ge _ NaN = False"
| "js_ge PosInfinity _ = True"
| "js_ge _ NegInfinity = True"
| "js_ge (Finite a) (Finite b) = (b \<le> a)"
| "js_ge (Finite a) PosInfinity = False"
| "js_ge NegInfinity _ = False"

section \<open>Values\<close>

text \<open>The values a dictionary file can hold are the results of \<open>JSON.parse\<close>.\<close>

datatype json = JNull | JBool bool | JNum number | JStr string
  | JArr "json list" | JObj "(string \<times> json) list"

fun json_truthy :: "json \<Rightarrow> bool" where
  "json_truthy JNull = False"
| "json_truthy (JBool b) = b"
| "json_truthy (JNum n) = (n \<noteq> Finite 0 \<and> n \<noteq> NaN)"
| "json_truthy (JStr s) = (s \<noteq> [])"
| "json_truthy (JArr xs) = True"
| "json_truthy (JObj kvs) = True"

text \<open>
  \<open>ToBoolean\<close> of a property read from a parsed JSON object: an inherited property is a
  built-in function or object, hence truthy; a missing one is \<open>undefined\<close>, hence falsy.
\<close>

fun property_truthy :: "json property \<Rightarrow> bool" where
  "property_truthy (OwnProp v) = json_truthy v"
| "property_truthy InheritedProp = True"
| "property_truthy NoProp = False"

text \<open>
  The values stored in the \<open>results\<close> and \<open>response\<close> objects of the two services: a
  primitive boolean, a \<open>Boolean\<close> wrapper object (\<open>new Boolean(b)\<close>), or \<open>undefined\<close>.
\<close>

datatype jsval = Undefined | Prim bool | BooleanObject bool

fun truthy :: "jsval \<Rightarrow> bool" where
  "truthy Undefined = False"
| "truthy (Prim b) = b"
| "truthy (BooleanObject b) = True"

text \<open>Whether a value is a \<open>Boolean\<close> wrapper object.\<close>

fun is_BooleanObject :: "jsval \<Rightarrow> bool" where
  "is_BooleanObject (BooleanObject b) = True"
| "is_BooleanObject _ = False"

text \<open>\<open>a && b\<close> is \<open>b\<close> when \<open>a\<close> is truthy and \<open>a\<close> otherwise.\<close>

definition js_and :: "jsval \<Rightarrow> jsval \<Rightarrow> jsval" where
  "js_and a b = (if truthy a then b else a)"

text \<open>
  \<open>obj[k]\<close> on an object of such values. The services read these objects only at keys
  obtained from \<open>Object.keys\<close>, where the property is an own property.
\<close>

definition js_read :: "jsval object \<Rightarrow> string \<Rightarrow> jsval" where
  "js_read obj k = (case map_of obj k of Some v \<Rightarrow> v | None \<Rightarrow> Undefined)"

text \<open>\<open>ToNumber\<close> of such a value, as \<open>*\<close> and \<open>+=\<close> apply it to their operands.\<close>

fun ToNumber :: "jsval \<Rightarrow> number" where
  "ToNumber Undefined = NaN"
| "ToNumber (Prim b) = Finite (if b then 1 else 0)"
| "ToNumber (BooleanObject b) = Finite (if b then 1 else 0)"

section \<open>Built-in functions of the runtime\<close>

text \<open>
  The services call two built-in functions on strings whose definitions are the
  runtime's: \<open>String.prototype.toLowerCase\<close>, and the conversion of a string to a number
  that \<open>Number(s)\<close> and the comparison \<open>s >= 5\<close> apply. They are parameters of the model.
\<close>

record runtime =
  toLowerCase :: "string \<Rightarrow> string"
  Number :: "string \<Rightarrow> number"

section \<open>Errors\<close>

text \<open>
  \<open>MoleculerClientError(message, code, type, data)\<close>: the services pass as \<open>type\<close> a
  string or, in one place, a list of \<open>{field, message}\<close> pairs, and as \<open>data\<close> such a list
  or nothing. \<open>TypeError\<close> stands for a property access on \<open>undefined\<close>, \<open>SyntaxError\<close> for
  \<open>JSON.parse\<close> on text that is not JSON.
\<close>

datatype error_type = TypeString string | TypeFields "(string \<times> string) list"

datatype error =
    MoleculerClientError string nat error_type "(string \<times> string) list option"
  | TypeError
  | SyntaxError

definition language_not_supported :: "string \<Rightarrow> error" where
  "language_not_supported lang =
     MoleculerClientError (''Language '' @ lang @ '' is not supported'') 404 (TypeString [])
       (Some [(''lang'', ''is not supported'')])"

definition level_does_not_exist :: "string \<Rightarrow> string \<Rightarrow> error" where
  "level_does_not_exist level lang =
     MoleculerClientError (''Level '' @ level @ '' does not exist for language '' @ lang)
       404 (TypeString []) (Some [(''level'', ''does not exist'')])"

definition level_not_allowed :: "string \<Rightarrow> error" where
  "level_not_allowed level =
     MoleculerClientError (''Level '' @ level @ '' is not allowed to unauthenticated users'')
       401 (TypeFields [(''level'', ''is not allowed for unauthenticated users'')]) None"

section \<open>The languages service\<close>

text \<open>
  \<open>metadata.dictionaries\<close> maps a language code to the object parsed from that language's
  dictionary file, whose keys are the words. Language codes are names of data files and
  are taken not to be names of \<open>Object.prototype\<close> properties, so that
  \<open>dictionaries[language]\<close> is an own property or \<open>undefined\<close>.
\<close>

type_synonym dictionaries = "json object object"

record check_result =
  result :: jsval

definition checkWord :: "dictionaries \<Rightarrow> string \<Rightarrow> string \<Rightarrow> error + check_result" where
  "checkWord dictionaries language word =
     (case map_of dictionaries language of
        None \<Rightarrow> Inl TypeError
      | Some dictionary \<Rightarrow>
          (let found = BooleanObject (property_truthy (js_get dictionary word))
           in Inr \<lparr>result = found\<rparr>))"

definition check :: "dictionaries \<Rightarrow> string \<Rightarrow> string \<Rightarrow> error + check_result" where
  "check dictionaries lang word =
     (if \<not> hasOwnProperty dictionaries lang then Inl (language_not_supported lang)
      else checkWord dictionaries lang word)"

fun checkMultiple_forEach ::
  "dictionaries \<Rightarrow> string \<Rightarrow> string list \<Rightarrow> jsval object \<Rightarrow> error + jsval object" where
  "checkMultiple_forEach dictionaries lang [] response = Inr response"
| "checkMultiple_forEach dictionaries lang (word # words) response =
     (case checkWord dictionaries lang word of
        Inl e \<Rightarrow> Inl e
      | Inr r \<Rightarrow> checkMultiple_forEach dictionaries lang words (js_set word (result r) response))"

definition checkMultiple :: "dictionaries \<Rightarrow> string \<Rightarrow> string list \<Rightarrow> error + jsval object" where
  "checkMultiple dictionaries lang words =
     (if \<not> hasOwnProperty dictionaries lang then Inl (language_not_supported lang)
      else checkMultiple_forEach dictionaries lang words [])"

definition checkLanguage :: "dictionaries \<Rightarrow> string \<Rightarrow> bool" where
  "checkLanguage dictionaries lang = hasOwnProperty dictionaries lang"

text \<open>
  The \<open>created\<close> hook reads the dictionary directory entry by entry. An entry carries its
  name, whether it is a regular file, and what \<open>JSON.parse\<close> makes of its content:
  \<open>None\<close> when the content is not JSON and \<open>JSON.parse\<close> throws. The hook has no
  \<open>try\<close>: the result is the table as it stands when the hook ends, and the exception
  that ended it, if any. The games service loads its level files with the same loop.
\<close>

record 'v dirent =
  name :: string
  isFile :: bool
  parsed :: "'v option"

fun created :: "'v dirent list \<Rightarrow> 'v object \<Rightarrow> 'v object \<times> error option" where
  "created [] dictionaries = (dictionaries, None)"
| "created (dictionary # rest) dictionaries =
     (if isFile dictionary \<and> endsWith (name dictionary) ''.json'' then
        (let filename = replace (name dictionary) ''.json'' []
         in case parsed dictionary of
              None \<Rightarrow> (dictionaries, Some SyntaxError)
            | Some v \<Rightarrow> created rest (js_set filename v dictionaries))
      else created rest dictionaries)"

text \<open>
  Modelled from the spec: the action \<open>languages.someWords\<close>, which the games service
  calls, is not part of the languages service in the source. The spec's
  \<open>wordsWithPrefix(languageCode, prefix, exclude, limit)\<close> returns up to \<open>limit\<close> distinct
  words of the language's word set that start with \<open>prefix\<close> (case-insensitive) and are
  not in \<open>exclude\<close> (case-insensitive), in a deterministic order, and signals
  "language not supported" for a language that is not loaded. Two strings are equal up to
  case when \<open>toLowerCase\<close> maps them to the same string, as in the prefix test of the
  games service.
\<close>

definition someWords ::
  "runtime \<Rightarrow> dictionaries \<Rightarrow> string \<Rightarrow> string \<Rightarrow> string list \<Rightarrow> nat
     \<Rightarrow> error + string list" where
  "someWords rt dictionaries lang prefix except count =
     (case map_of dictionaries lang of
        None \<Rightarrow> Inl (language_not_supported lang)
      | Some dictionary \<Rightarrow>
          Inr (take count
                (filter (\<lambda>w. startsWith (toLowerCase rt w) (toLowerCase rt prefix)
                              \<and> toLowerCase rt w \<notin> set (map (toLowerCase rt) except))
                   (remdups (js_keys dictionary)))))"

section \<open>The games service\<close>

text \<open>
  \<open>metadata.games\<close> maps a language code to the object parsed from that language's level
  file, which maps a level key to the level's settings: the required letter and the
  steps. A step has a type tag; a \<open>findWords\<close> step has a reward per word and a required
  count, which are numbers.
\<close>

record step =
  step_type :: string
  rewardPerWord :: number
  required :: number

record level_settings =
  letter :: string
  steps :: "step list"

type_synonym games = "level_settings object object"

text \<open>
  \<open>getSettings\<close> reads \<open>games[lang]\<close> with no test of its own: for a language without
  an own property in \<open>games\<close> that is \<open>undefined\<close> (language codes being no names of
  \<open>Object.prototype\<close> properties), and the call of \<open>hasOwnProperty\<close> on it throws.
  Otherwise \<open>hasOwnProperty(level)\<close> holds exactly when the level collection has an entry
  for \<open>level\<close>, which the second \<open>case\<close> tests.
\<close>

definition getSettings ::
  "dictionaries \<Rightarrow> games \<Rightarrow> string \<Rightarrow> string \<Rightarrow> error + level_settings" where
  "getSettings dictionaries games lang level =
     (let languageExist = checkLanguage dictionaries lang
      in if \<not> languageExist then Inl (language_not_supported lang)
         else (case map_of games lang of
                 None \<Rightarrow> Inl TypeError
               | Some levels \<Rightarrow>
                   (case map_of levels level of
                      None \<Rightarrow> Inl (level_does_not_exist level lang)
                    | Some response \<Rightarrow> Inr response)))"

text \<open>The handler of the \<open>settings\<close> action.\<close>

definition settings ::
  "dictionaries \<Rightarrow> games \<Rightarrow> string \<Rightarrow> string \<Rightarrow> error + level_settings" where
  "settings dictionaries games lang level = getSettings dictionaries games lang level"

text \<open>
  The handler of the \<open>demoSettings\<close> action. \<open>level\<close> is a string, and \<open>level >= 5\<close>
  compares the number it converts to.
\<close>

definition demoSettings ::
  "runtime \<Rightarrow> dictionaries \<Rightarrow> games \<Rightarrow> string \<Rightarrow> string \<Rightarrow> error + level_settings" where
  "demoSettings rt dictionaries games lang level =
     (if js_ge (Number rt level) (Finite 5) then Inl (level_not_allowed level)
      else getSettings dictionaries games lang level)"

text \<open>\<open>Array.prototype.findIndex\<close>: the index of the first match, or \<open>-1\<close>.\<close>

fun findIndex :: "('a \<Rightarrow> bool) \<Rightarrow> 'a list \<Rightarrow> int" where
  "findIndex p [] = - 1"
| "findIndex p (x # xs) =
     (if p x then 0 else (let i = findIndex p xs in if i = - 1 then - 1 else i + 1))"

text \<open>The response of \<open>findWordsResults\<close>.\<close>

record response =
  resp_level :: number
  resp_success :: bool
  resp_required :: number
  resp_results :: "jsval object"
  resp_someWords :: "string list"
  resp_score :: number
  resp_total_found :: number
  resp_type :: string

text \<open>The first loop: every word gets the outcome of the prefix test.\<close>

definition prefix_results :: "runtime \<Rightarrow> string \<Rightarrow> string list \<Rightarrow> jsval object" where
  "prefix_results rt required_letter words =
     fold (\<lambda>word results.
             js_set word
               (Prim (startsWith (toLowerCase rt word) (toLowerCase rt required_letter)))
               results)
       words []"

text \<open>The words sent to \<open>languages.checkMultiple\<close>.\<close>

definition candidates :: "jsval object \<Rightarrow> string list" where
  "candidates results = filter (\<lambda>key. truthy (js_read results key)) (js_keys results)"

text \<open>The second loop: the dictionary's answers are combined with the prefix outcomes.\<close>

definition dictionary_results :: "jsval object \<Rightarrow> jsval object \<Rightarrow> jsval object" where
  "dictionary_results checkInDictionary results0 =
     fold (\<lambda>word results.
             js_set word (js_and (js_read checkInDictionary word) (js_read results word))
               results)
       (js_keys checkInDictionary) results0"

text \<open>
  The third loop, score and count, accumulated in double arithmetic: \<open>score_step\<close> is
  its body, \<open>score += results[word] * rewardPerWord; total_found += results[word]\<close>.
\<close>

definition score_step ::
  "jsval object \<Rightarrow> number \<Rightarrow> string \<Rightarrow> number \<times> number \<Rightarrow> number \<times> number" where
  "score_step results reward word =
     (\<lambda>(score, total_found).
        (js_add score (js_mul (ToNumber (js_read results word)) reward),
         js_add total_found (ToNumber (js_read results word))))"

definition scores :: "jsval object \<Rightarrow> number \<Rightarrow> number \<times> number" where
  "scores results reward =
     fold (score_step results reward) (js_keys results) (Finite 0, Finite 0)"

definition findWordsResults ::
  "runtime \<Rightarrow> dictionaries \<Rightarrow> games \<Rightarrow> string \<Rightarrow> string \<Rightarrow> string list
     \<Rightarrow> error + response" where
  "findWordsResults rt dictionaries games lang level words =
     (case getSettings dictionaries games lang level of
        Inl e \<Rightarrow> Inl e
      | Inr levelSettings \<Rightarrow>
          (let results0 = prefix_results rt (letter levelSettings) words
           in case checkMultiple dictionaries lang (candidates results0) of
                Inl e \<Rightarrow> Inl e
              | Inr checkInDictionary \<Rightarrow>
                  (let results = dictionary_results checkInDictionary results0;
                       stepIndex = findIndex (\<lambda>step. step_type step = ''findWords'')
                                     (steps levelSettings)
                   in if stepIndex > - 1 then
                        (let found_step = steps levelSettings ! nat stepIndex;
                             (score, total_found) = scores results (rewardPerWord found_step)
                         in case someWords rt dictionaries lang (letter levelSettings) words 5 of
                              Inl e \<Rightarrow> Inl e
                            | Inr some_words \<Rightarrow>
                                Inr \<lparr>resp_level = Number rt level,
                                     resp_success = js_ge total_found (required found_step),
                                     resp_required = required found_step,
                                     resp_results = results,
                                     resp_someWords = some_words,
                                     resp_score = score,
                                     resp_total_found = total_found,
                                     resp_type = step_type found_step\<rparr>)
                      else Inl (level_does_not_exist level lang))))"

section \<open>An example store\<close>

text \<open>
  The store of the specification's example: English with the words apple, ant and banana;
  level 1 requires the letter a and has a \<open>findWords\<close> step with reward 10 and 2 required
  words. Two levels are added: level 2 has no \<open>findWords\<close> step, and level 3 is level 1
  with the reward \<open>0.1\<close>, that is, the double nearest to it.
\<close>

definition example_dictionaries :: dictionaries where
  "example_dictionaries =
     [(''en'', [(''apple'', JNum (Finite 1)), (''ant'', JNum (Finite 1)),
                (''banana'', JNum (Finite 1))])]"

definition example_games :: games where
  "example_games =
     [(''en'',
       [(''1'', \<lparr>letter = ''a'',
                 steps = [\<lparr>step_type = ''findWords'', rewardPerWord = Finite 10,
                           required = Finite 2\<rparr>]\<rparr>),
        (''2'', \<lparr>letter = ''b'',
                 steps = [\<lparr>step_type = ''quiz'', rewardPerWord = Finite 0,
                           required = Finite 0\<rparr>]\<rparr>),
        (''3'', \<lparr>letter = ''a'',
                 steps = [\<lparr>step_type = ''findWords'',
                           rewardPerWord = Finite (3602879701896397 / 36028797018963968),
                           required = Finite 2\<rparr>]\<rparr>)])]"

text \<open>A second dictionary store: English with ten words that start with the letter a.\<close>

definition two_letter_dictionaries :: dictionaries where
  "two_letter_dictionaries =
     [(''en'', map (\<lambda>w. (w, JNum (Finite 1)))
                 [''ab'', ''ad'', ''ah'', ''ai'', ''am'', ''an'', ''as'', ''at'', ''aw'', ''ax''])]"

text \<open>
  The two built-in functions at the strings of the examples: \<open>toLowerCase\<close> maps \<open>Apple\<close>
  to \<open>apple\<close> and leaves the other strings of the examples, which have no uppercase
  letter, as they are; the level keys \<open>1\<close>, \<open>2\<close>, \<open>3\<close> and \<open>7\<close> convert to the numbers they
  denote.
\<close>

definition example_runtime :: runtime where
  "example_runtime =
     \<lparr>toLowerCase = (\<lambda>s. if s = ''Apple'' then ''apple'' else s),
      Number = (\<lambda>s. if s = ''1'' then Finite 1 else if s = ''2'' then Finite 2
                     else if s = ''3'' then Finite 3 else if s = ''7'' then Finite 7
                     else NaN)\<rparr>"

section \<open>Properties of the object model\<close>

lemma hasOwnProperty_iff: "hasOwnProperty obj k \<longleftrightarrow> k \<in> set (map fst obj)"
  by (simp add: hasOwnProperty_def map_of_eq_None_iff)

lemma map_fst_overwrite: "map fst (overwrite k v obj) = map fst obj"
  by (induction obj) auto

lemma map_fst_js_set:
  "map fst (js_set k v obj) =
     (if k \<in> set (map fst obj) \<or> k = ''__proto__'' then map fst obj else map fst obj @ [k])"
  by (simp add: js_set_def hasOwnProperty_iff map_fst_overwrite)

lemma overwrite_same: "map_of obj k = Some v \<Longrightarrow> overwrite k v obj = obj"
  by (induction obj) (auto split: if_splits)

lemma js_set_read_same:
  assumes "k \<in> set (map fst obj)"
  shows "js_set k (js_read obj k) obj = obj"
proof -
  from assms obtain v where "map_of obj k = Some v"
    by (metis map_of_eq_None_iff not_Some_eq set_map)
  with assms show ?thesis
    by (simp add: js_set_def hasOwnProperty_def js_read_def overwrite_same)
qed

lemma set_js_keys: "set (js_keys obj) = set (map fst obj)"
  by (auto simp: js_keys_def)

lemma js_set_values:
  assumes "list_all (\<lambda>e. P (snd e)) obj" and "P v"
  shows "list_all (\<lambda>e. P (snd e)) (js_set k v obj)"
proof -
  have "list_all (\<lambda>e. P (snd e)) (overwrite k v obj)"
    using assms by (induction obj) auto
  with assms show ?thesis by (simp add: js_set_def)
qed

lemma is_BooleanObject_truthy: "is_BooleanObject v \<Longrightarrow> truthy v \<and> v \<noteq> Prim False"
  by (cases v) auto

section \<open>Properties of the languages service\<close>

lemma checkWord_own:
  "map_of dictionaries language = Some dictionary \<Longrightarrow>
   checkWord dictionaries language word =
     Inr \<lparr>result = BooleanObject (property_truthy (js_get dictionary word))\<rparr>"
  by (simp add: checkWord_def)

lemma checkMultiple_forEach_own:
  assumes "map_of dictionaries lang = Some dictionary"
  shows "\<exists>response'. checkMultiple_forEach dictionaries lang words response = Inr response'
     \<and> set (map fst response') = set (map fst response) \<union> (set words - {''__proto__''})
     \<and> (list_all (\<lambda>e. is_BooleanObject (snd e)) response
          \<longrightarrow> list_all (\<lambda>e. is_BooleanObject (snd e)) response')"
proof (induction words arbitrary: response)
  case Nil
  then show ?case by simp
next
  case (Cons w ws)
  let ?r = "js_set w (BooleanObject (property_truthy (js_get dictionary w))) response"
  from Cons[of ?r] obtain r' where r': "checkMultiple_forEach dictionaries lang ws ?r = Inr r'"
    "set (map fst r') = set (map fst ?r) \<union> (set ws - {''__proto__''})"
    "list_all (\<lambda>e. is_BooleanObject (snd e)) ?r \<longrightarrow> list_all (\<lambda>e. is_BooleanObject (snd e)) r'"
    by blast
  have 1: "checkMultiple_forEach dictionaries lang (w # ws) response = Inr r'"
    using r'(1) assms by (simp add: checkWord_own)
  have 2: "set (map fst r') = set (map fst response) \<union> (set (w # ws) - {''__proto__''})"
    using r'(2) by (auto simp: map_fst_js_set split: if_splits)
  have 3: "list_all (\<lambda>e. is_BooleanObject (snd e)) response
             \<longrightarrow> list_all (\<lambda>e. is_BooleanObject (snd e)) r'"
    using r'(3)
      js_set_values[of is_BooleanObject response
        "BooleanObject (property_truthy (js_get dictionary w))" w]
    by simp
  show ?case using 1 2 3 by blast
qed

lemma checkMultiple_own:
  assumes "hasOwnProperty dictionaries lang"
  shows "\<exists>response. checkMultiple dictionaries lang words = Inr response
     \<and> set (map fst response) = set words - {''__proto__''}
     \<and> list_all (\<lambda>e. is_BooleanObject (snd e)) response"
proof -
  from assms obtain d where d: "map_of dictionaries lang = Some d"
    by (auto simp: hasOwnProperty_def)
  from checkMultiple_forEach_own[OF d, of words "[]"] assms show ?thesis
    by (auto simp: checkMultiple_def)
qed

text \<open>
  C8. For every supported language and every word, in the dictionary or not, \<open>checkWord\<close>
  returns its result wrapped in a \<open>Boolean\<close> object; \<open>checkMultiple\<close> returns a response
  with an entry for every word, and every value in it is such a wrapper: it is truthy and
  never the primitive \<open>false\<close>.
\<close>

theorem checkWord_result_is_boolean_object:
  assumes "hasOwnProperty dictionaries lang"
  shows "(\<exists>b. checkWord dictionaries lang word = Inr \<lparr>result = BooleanObject b\<rparr>)
     \<and> (\<exists>response. checkMultiple dictionaries lang words = Inr response
          \<and> set (map fst response) = set words - {''__proto__''}
          \<and> list_all (\<lambda>e. is_BooleanObject (snd e) \<and> truthy (snd e) \<and> snd e \<noteq> Prim False)
                response)"
proof -
  from assms obtain d where d: "map_of dictionaries lang = Some d"
    by (auto simp: hasOwnProperty_def)
  have a: "\<exists>b. checkWord dictionaries lang word = Inr \<lparr>result = BooleanObject b\<rparr>"
    using d by (simp add: checkWord_own)
  from checkMultiple_own[OF assms, of words] obtain response where
    r: "checkMultiple dictionaries lang words = Inr response"
       "set (map fst response) = set words - {''__proto__''}"
       "list_all (\<lambda>e. is_BooleanObject (snd e)) response" by blast
  have "list_all (\<lambda>e. is_BooleanObject (snd e) \<and> truthy (snd e) \<and> snd e \<noteq> Prim False) response"
    using r(3) by (auto simp: list_all_iff dest: is_BooleanObject_truthy)
  with a r show ?thesis by blast
qed

theorem checkWord_result_is_boolean_object_witness:
  "hasOwnProperty [(''en'', [(''apple'', JNum (Finite 1))])] ''en''
   \<and> checkWord [(''en'', [(''apple'', JNum (Finite 1))])] ''en'' ''zebra''
       = Inr \<lparr>result = BooleanObject False\<rparr>
   \<and> checkMultiple [(''en'', [(''apple'', JNum (Finite 1))])] ''en'' [''zebra'', ''apple'']
       = Inr [(''zebra'', BooleanObject False), (''apple'', BooleanObject True)]
   \<and> list_all (\<lambda>e. is_BooleanObject (snd e) \<and> truthy (snd e) \<and> snd e \<noteq> Prim False)
       [(''zebra'', BooleanObject False), (''apple'', BooleanObject True)]"
proof -
  have h: "hasOwnProperty [(''en'', [(''apple'', JNum (Finite 1))])] ''en''"
    by (simp add: hasOwnProperty_def)
  have c: "checkMultiple [(''en'', [(''apple'', JNum (Finite 1))])] ''en'' [''zebra'', ''apple'']
       = Inr [(''zebra'', BooleanObject False), (''apple'', BooleanObject True)]"
    by code_simp
  have w: "checkWord [(''en'', [(''apple'', JNum (Finite 1))])] ''en'' ''zebra''
       = Inr \<lparr>result = BooleanObject False\<rparr>"
    by code_simp
  from checkWord_result_is_boolean_object[OF h, of "''zebra''" "[''zebra'', ''apple'']"] h c w
  show ?thesis by simp
qed







lemma created_append:
  "snd (created before t) = None \<Longrightarrow>
   created (before @ rest) t = created rest (fst (created before t))"
  by (induction before arbitrary: t) (auto split: option.splits simp: Let_def)

text \<open>
  C5, amended. If the file of one language is unparsable, \<open>created\<close> ends there with the
  parser's exception: the table holds what the entries before that file gave, and no
  entry after it is read.
\<close>

theorem created_stops_at_malformed_file:
  assumes "snd (created before t) = None"
    and "isFile bad" and "endsWith (name bad) ''.json''" and "parsed bad = None"
  shows "created (before @ bad # rest) t = (fst (created before t), Some SyntaxError)"
  using assms by (simp add: created_append)

theorem created_stops_at_malformed_file_witness:
  "created ([\<lparr>name = ''en.json'', isFile = True, parsed = Some [(''apple'', JNum (Finite 1))]\<rparr>]
            @ \<lparr>name = ''fr.json'', isFile = True, parsed = None\<rparr>
            # [\<lparr>name = ''de.json'', isFile = True, parsed = Some [(''apfel'', JNum (Finite 1))]\<rparr>]) []
     = ([(''en'', [(''apple'', JNum (Finite 1))])], Some SyntaxError)"
proof -
  let ?en = "\<lparr>name = ''en.json'', isFile = True, parsed = Some [(''apple'', JNum (Finite 1))]\<rparr>"
  let ?fr = "\<lparr>name = ''fr.json'', isFile = True, parsed = (None :: json object option)\<rparr>"
  have 1: "created [?en] [] = ([(''en'', [(''apple'', JNum (Finite 1))])], None)" by code_simp
  have 2: "endsWith (name ?fr) ''.json''" by code_simp
  show ?thesis
    using created_stops_at_malformed_file[of "[?en]" "[]" ?fr] 1 2 by simp
qed

text \<open>
  C5 as stated fails: a malformed \<open>fr.json\<close> read first keeps the well-formed
  \<open>en.json\<close> from being loaded.
\<close>

theorem created_skip_and_continue_counterexample:
  "created [\<lparr>name = ''fr.json'', isFile = True, parsed = None\<rparr>,
            \<lparr>name = ''en.json'', isFile = True, parsed = Some [(''apple'', JNum (Finite 1))]\<rparr>] []
     = ([], Some SyntaxError)
   \<and> \<not> checkLanguage (fst (created [\<lparr>name = ''fr.json'', isFile = True, parsed = None\<rparr>,
            \<lparr>name = ''en.json'', isFile = True, parsed = Some [(''apple'', JNum (Finite 1))]\<rparr>] [])) ''en''"
  by code_simp

section \<open>More on the object model\<close>

lemma remdups_snoc: "remdups (xs @ [w]) = remdups (filter (\<lambda>x. x \<noteq> w) xs) @ [w]"
  by (induction xs) auto

lemma first_occurrences_Cons:
  "rev (remdups (rev (w # xs))) = w # rev (remdups (rev (filter (\<lambda>x. x \<noteq> w) xs)))"
  by (simp add: remdups_snoc rev_filter)

lemma keys_fold_js_set:
  "map fst (fold (\<lambda>w r. js_set w (f w) r) ws acc) =
     map fst acc
     @ rev (remdups (rev (filter (\<lambda>w. w \<notin> set (map fst acc) \<and> w \<noteq> ''__proto__'') ws)))"
proof (induction ws arbitrary: acc)
  case Nil
  then show ?case by simp
next
  case (Cons w ws)
  show ?case
  proof (cases "w \<in> set (map fst acc) \<or> w = ''__proto__''")
    case True
    then have "map fst (js_set w (f w) acc) = map fst acc"
      by (simp add: map_fst_js_set)
    with True Cons[of "js_set w (f w) acc"] show ?thesis by auto
  next
    case False
    then have k: "map fst (js_set w (f w) acc) = map fst acc @ [w]"
      by (simp add: map_fst_js_set)
    have eq: "(\<lambda>x. x \<notin> set (map fst acc @ [w]) \<and> x \<noteq> ''__proto__'')
            = (\<lambda>x. (x \<notin> set (map fst acc) \<and> x \<noteq> ''__proto__'') \<and> x \<noteq> w)"
      by auto
    have "map fst (fold (\<lambda>w r. js_set w (f w) r) (w # ws) acc)
        = map fst acc @ [w] @ rev (remdups (rev (filter
            (\<lambda>x. x \<notin> set (map fst acc @ [w]) \<and> x \<noteq> ''__proto__'') ws)))"
      using Cons[of "js_set w (f w) acc"] k by simp
    also have "\<dots> = map fst acc @ rev (remdups (rev (w # filter
            (\<lambda>x. x \<notin> set (map fst acc) \<and> x \<noteq> ''__proto__'') ws)))"
      unfolding first_occurrences_Cons eq by simp
    finally show ?thesis using False by simp
  qed
qed

lemma overwrite_keyed:
  "list_all (\<lambda>e. snd e = f (fst e)) obj \<Longrightarrow> list_all (\<lambda>e. snd e = f (fst e)) (overwrite k (f k) obj)"
  by (induction obj) auto

lemma js_set_keyed:
  "list_all (\<lambda>e. snd e = f (fst e)) obj \<Longrightarrow> list_all (\<lambda>e. snd e = f (fst e)) (js_set k (f k) obj)"
  by (simp add: js_set_def overwrite_keyed)

lemma fold_js_set_keyed:
  "list_all (\<lambda>e. snd e = f (fst e)) acc \<Longrightarrow>
   list_all (\<lambda>e. snd e = f (fst e)) (fold (\<lambda>w r. js_set w (f w) r) ws acc)"
  by (induction ws arbitrary: acc) (simp_all add: js_set_keyed)

lemma js_read_keyed:
  "list_all (\<lambda>e. snd e = f (fst e)) obj \<Longrightarrow> k \<in> set (map fst obj) \<Longrightarrow> js_read obj k = f k"
  by (induction obj) (auto simp: js_read_def)

lemma js_read_own:
  "list_all (\<lambda>e. P (snd e)) obj \<Longrightarrow> k \<in> set (map fst obj) \<Longrightarrow> P (js_read obj k)"
  by (induction obj) (auto simp: js_read_def)

lemma overwrite_twice: "overwrite k v2 (overwrite k v1 obj) = overwrite k v2 obj"
  by (induction obj) auto

lemma overwrite_absent: "k \<notin> set (map fst obj) \<Longrightarrow> overwrite k v obj = obj"
  by (induction obj) auto

lemma js_set_twice: "js_set k v2 (js_set k v1 obj) = js_set k v2 obj"
proof (cases "hasOwnProperty obj k")
  case True
  then have "hasOwnProperty (overwrite k v1 obj) k"
    by (simp add: hasOwnProperty_iff map_fst_overwrite)
  with True show ?thesis by (simp add: js_set_def overwrite_twice)
next
  case False
  then have a: "k \<notin> set (map fst obj)" by (simp add: hasOwnProperty_iff)
  show ?thesis
  proof (cases "k = ''__proto__''")
    case True
    with False show ?thesis by (simp add: js_set_def)
  next
    case neq: False
    have "hasOwnProperty (obj @ [(k, v1)]) k" by (simp add: hasOwnProperty_iff)
    moreover have "overwrite k v2 (obj @ [(k, v1)]) = obj @ [(k, v2)]"
      using a by (induction obj) auto
    ultimately show ?thesis using False neq by (simp add: js_set_def)
  qed
qed

lemma map_of_overwrite:
  "map_of obj k \<noteq> None \<Longrightarrow> map_of (overwrite k v obj) k = Some v"
  by (induction obj) (auto split: if_splits)

lemma js_read_js_set:
  assumes "k \<noteq> ''__proto__''"
  shows "js_read (js_set k v obj) k = v"
proof (cases "hasOwnProperty obj k")
  case True
  then show ?thesis
    by (simp add: js_set_def js_read_def hasOwnProperty_def map_of_overwrite)
next
  case False
  then have "map_of obj k = None" by (simp add: hasOwnProperty_def)
  with False assms show ?thesis by (simp add: js_set_def js_read_def map_add_def)
qed

section \<open>Properties of double arithmetic\<close>

text \<open>An integer of magnitude at most \<open>2^53\<close> is a double: rounding leaves it as it is.\<close>

lemma quotient_of_of_int: "quotient_of (of_int a) = (a, 1)"
  by (metis Rat.of_int_def quotient_of_int)

lemma round_half_even_of_int: "round_half_even (of_int j) = j"
  by (simp add: round_half_even_def)

lemma pow2_nonzero: "pow2 k \<noteq> 0"
  by (simp add: pow2_def)

lemma floor_log2_of_int:
  assumes "0 < m"
  shows "floor_log2 (of_int m) = bitlen m - 1"
proof -
  have b: "2 ^ nat (bitlen m - 1) \<le> m" using bitlen_bounds[OF assms] by simp
  have ge: "0 \<le> bitlen m - 1" using assms by (simp add: bitlen_alt_def)
  have "pow2 (bitlen m - 1) = of_int (2 ^ nat (bitlen m - 1))"
    using ge by (simp add: pow2_def)
  also have "\<dots> \<le> (of_int m :: rat)" using b by (metis of_int_le_iff)
  finally show ?thesis
    by (simp add: floor_log2_def quotient_of_of_int compute_bitlen[of 1])
qed

lemma bitlen_le_54:
  assumes "0 < m" and "m \<le> 2 ^ 53"
  shows "bitlen m \<le> 54"
proof -
  have "2 ^ nat (bitlen m - 1) \<le> m" using bitlen_bounds[OF assms(1)] by simp
  also note assms(2)
  finally have "(2::int) ^ nat (bitlen m - 1) \<le> 2 ^ 53" .
  then have "nat (bitlen m - 1) \<le> 53"
    by (rule power_le_imp_le_exp[rotated]) simp
  then show ?thesis by simp
qed

lemma round64_exact:
  assumes "x \<noteq> 0"
    and "of_int (round_half_even (x / pow2 (max (floor_log2 \<bar>x\<bar>) (- 1022) - 52)))
           * pow2 (max (floor_log2 \<bar>x\<bar>) (- 1022) - 52) = x"
    and "floor_log2 \<bar>x\<bar> < 1024"
  shows "round64 x = Finite x"
  unfolding round64_def Let_def assms(2) using assms(1,3) by simp

lemma scaled_int:
  assumes "0 < m" and "m \<le> 2 ^ 53"
  shows "\<exists>j. (of_int m :: rat) / pow2 (bitlen m - 1 - 52) = of_int j"
proof (cases "bitlen m - 1 - 52 \<le> 0")
  case True
  then have "pow2 (bitlen m - 1 - 52) = 1 / of_int (2 ^ nat (- (bitlen m - 1 - 52)))"
    by (cases "bitlen m - 1 - 52 = 0") (simp_all add: pow2_def)
  then have "(of_int m :: rat) / pow2 (bitlen m - 1 - 52)
      = of_int (m * 2 ^ nat (- (bitlen m - 1 - 52)))" by simp
  then show ?thesis by blast
next
  case False
  with bitlen_le_54[OF assms] have k1: "bitlen m - 1 - 52 = 1" by simp
  then have e: "nat (bitlen m - 1) = 53" by simp
  have "2 ^ nat (bitlen m - 1) \<le> m" using bitlen_bounds[OF assms(1)] by simp
  then have "2 ^ 53 \<le> m" unfolding e .
  with assms(2) have "m = 2 ^ 53" by simp
  then have "(of_int m :: rat) / pow2 (bitlen m - 1 - 52) = of_int (2 ^ 52)"
    unfolding k1 by (simp add: pow2_def)
  then show ?thesis by blast
qed

lemma round64_of_signed_int:
  assumes "0 < m" and "m \<le> 2 ^ 53" and "s = 1 \<or> s = - 1"
  shows "round64 (of_int (s * m)) = Finite (of_int (s * m))"
proof (rule round64_exact)
  let ?x = "of_int (s * m) :: rat"
  show "?x \<noteq> 0" using assms(1,3) by auto
  have ab: "\<bar>?x\<bar> = of_int m" using assms(1,3) by auto
  have fl: "floor_log2 \<bar>?x\<bar> = bitlen m - 1"
    unfolding ab by (rule floor_log2_of_int[OF assms(1)])
  have e0: "0 \<le> bitlen m - 1" using assms(1) by (simp add: bitlen_alt_def)
  show "floor_log2 \<bar>?x\<bar> < 1024" unfolding fl using bitlen_le_54[OF assms(1,2)] by simp
  have kk: "max (floor_log2 \<bar>?x\<bar>) (- 1022) - 52 = bitlen m - 1 - 52"
    unfolding fl using e0 by simp
  from scaled_int[OF assms(1,2)] obtain j where
    j: "(of_int m :: rat) / pow2 (bitlen m - 1 - 52) = of_int j" by blast
  have "?x / pow2 (bitlen m - 1 - 52) = of_int s * (of_int m / pow2 (bitlen m - 1 - 52))"
    by simp
  also have "\<dots> = of_int (s * j)" unfolding j by simp
  finally have js: "?x / pow2 (bitlen m - 1 - 52) = of_int (s * j)" .
  have "of_int (round_half_even (?x / pow2 (bitlen m - 1 - 52))) * pow2 (bitlen m - 1 - 52) = ?x"
    unfolding js round_half_even_of_int using js pow2_nonzero[of "bitlen m - 1 - 52"]
    by (metis nonzero_divide_eq_eq)
  then show "of_int (round_half_even (?x / pow2 (max (floor_log2 \<bar>?x\<bar>) (- 1022) - 52)))
           * pow2 (max (floor_log2 \<bar>?x\<bar>) (- 1022) - 52) = ?x"
    unfolding kk .
qed

lemma round64_of_int:
  assumes "\<bar>m\<bar> \<le> 2 ^ 53"
  shows "round64 (of_int m) = Finite (of_int m)"
proof (cases "m = 0")
  case True
  then show ?thesis by (simp add: round64_def)
next
  case False
  show ?thesis
  proof (cases "0 < m")
    case True
    with assms round64_of_signed_int[of m 1] show ?thesis by simp
  next
    case neg: False
    with False assms round64_of_signed_int[of "- m" "- 1"] show ?thesis by simp
  qed
qed

lemma bounded_multiple:
  assumes "0 \<le> a" and "a \<le> b" and "b * \<bar>k\<bar> \<le> (B::int)"
  shows "\<bar>a * k\<bar> \<le> B"
proof -
  have "\<bar>a * k\<bar> = a * \<bar>k\<bar>" using assms(1) by (simp add: abs_mult)
  also have "\<dots> \<le> b * \<bar>k\<bar>" using assms(2) by (simp add: mult_right_mono)
  finally show ?thesis using assms(3) by simp
qed

section \<open>Properties of the games service\<close>

lemma keys_prefix_results:
  "map fst (prefix_results rt required_letter words)
     = rev (remdups (rev (filter (\<lambda>w. w \<noteq> ''__proto__'') words)))"
  unfolding prefix_results_def by (simp add: keys_fold_js_set)

lemma values_prefix_results:
  "list_all (\<lambda>e. snd e = Prim (startsWith (toLowerCase rt (fst e)) (toLowerCase rt required_letter)))
     (prefix_results rt required_letter words)"
  unfolding prefix_results_def
  using fold_js_set_keyed[of "\<lambda>w. Prim (startsWith (toLowerCase rt w) (toLowerCase rt required_letter))" "[]" words]
  by simp

lemma dictionary_results_fold_id:
  assumes "list_all (\<lambda>e. is_BooleanObject (snd e)) checkInDictionary"
    and "set ks \<subseteq> set (map fst checkInDictionary)" and "set ks \<subseteq> set (map fst results)"
  shows "fold (\<lambda>word results.
             js_set word (js_and (js_read checkInDictionary word) (js_read results word))
               results) ks results = results"
  using assms(2,3)
proof (induction ks)
  case Nil
  then show ?case by simp
next
  case (Cons k ks)
  have "is_BooleanObject (js_read checkInDictionary k)"
    using js_read_own[OF assms(1), of k] Cons.prems by simp
  then have "js_and (js_read checkInDictionary k) (js_read results k) = js_read results k"
    by (simp add: js_and_def is_BooleanObject_truthy)
  moreover have "k \<in> set (map fst results)" using Cons.prems by simp
  ultimately have "js_set k (js_and (js_read checkInDictionary k) (js_read results k)) results = results"
    by (simp add: js_set_read_same)
  with Cons show ?case by simp
qed

lemma dictionary_results_id:
  assumes "list_all (\<lambda>e. is_BooleanObject (snd e)) checkInDictionary"
    and "set (map fst checkInDictionary) \<subseteq> set (map fst results)"
  shows "dictionary_results checkInDictionary results = results"
  unfolding dictionary_results_def
  using dictionary_results_fold_id[OF assms(1), of "js_keys checkInDictionary" results] assms(2)
  by (simp add: set_js_keys)

lemma set_candidates: "set (candidates results) \<subseteq> set (map fst results)"
  by (auto simp: candidates_def set_js_keys)

lemma getSettings_Inr:
  "getSettings dictionaries games lang level = Inr ls \<Longrightarrow> hasOwnProperty dictionaries lang"
  by (auto simp: getSettings_def checkLanguage_def Let_def split: if_splits)

lemma findWordsResults_unfold:
  assumes "getSettings dictionaries games lang level = Inr levelSettings"
  shows "findWordsResults rt dictionaries games lang level words =
     (let results = prefix_results rt (letter levelSettings) words;
          stepIndex = findIndex (\<lambda>step. step_type step = ''findWords'') (steps levelSettings)
      in if stepIndex > - 1 then
           (let found_step = steps levelSettings ! nat stepIndex;
                (score, total_found) = scores results (rewardPerWord found_step)
            in case someWords rt dictionaries lang (letter levelSettings) words 5 of
                 Inl e \<Rightarrow> Inl e
               | Inr some_words \<Rightarrow>
                   Inr \<lparr>resp_level = Number rt level,
                        resp_success = js_ge total_found (required found_step),
                        resp_required = required found_step,
                        resp_results = results,
                        resp_someWords = some_words,
                        resp_score = score,
                        resp_total_found = total_found,
                        resp_type = step_type found_step\<rparr>)
         else Inl (level_does_not_exist level lang))"
proof -
  let ?r0 = "prefix_results rt (letter levelSettings) words"
  from checkMultiple_own[OF getSettings_Inr[OF assms], of "candidates ?r0"]
  obtain cid where cid: "checkMultiple dictionaries lang (candidates ?r0) = Inr cid"
    "set (map fst cid) = set (candidates ?r0) - {''__proto__''}"
    "list_all (\<lambda>e. is_BooleanObject (snd e)) cid" by blast
  have "set (map fst cid) \<subseteq> set (map fst ?r0)"
    using cid(2) set_candidates[of ?r0] by auto
  then have "dictionary_results cid ?r0 = ?r0"
    using dictionary_results_id[OF cid(3)] by simp
  then show ?thesis
    using assms cid(1) by (simp add: findWordsResults_def Let_def)
qed

lemma findIndex_find_None:
  "List.find p xs = None \<Longrightarrow> findIndex p xs = - 1"
  by (induction xs) (auto split: if_splits)

lemma findIndex_find_Some:
  "List.find p xs = Some x \<Longrightarrow> findIndex p xs > - 1 \<and> xs ! nat (findIndex p xs) = x"
proof (induction xs)
  case Nil
  then show ?case by simp
next
  case (Cons y ys)
  show ?case
  proof (cases "p y")
    case True
    with Cons.prems show ?thesis by simp
  next
    case False
    with Cons have ih: "findIndex p ys > - 1" "ys ! nat (findIndex p ys) = x" by auto
    then have "nat (findIndex p ys + 1) = Suc (nat (findIndex p ys))" by simp
    with ih False show ?thesis by (simp add: Let_def)
  qed
qed

lemma findIndex_gt_find:
  "findIndex p xs > - 1 \<Longrightarrow> \<exists>x. List.find p xs = Some x"
  using findIndex_find_None[of p xs] by (cases "List.find p xs") auto

lemma length_js_keys: "length (js_keys obj) = length obj"
proof -
  have "length (filter is_array_index (map fst obj))
      + length (filter (\<lambda>k. \<not> is_array_index k) (map fst obj)) = length (map fst obj)"
    by (rule sum_length_filter_compl)
  then show ?thesis by (simp add: js_keys_def)
qed

lemma length_prefix_results: "length (prefix_results rt required_letter words) \<le> length words"
proof -
  have "length (map fst (prefix_results rt required_letter words))
      = length (remdups (rev (filter (\<lambda>w. w \<noteq> ''__proto__'') words)))"
    unfolding keys_prefix_results by simp
  also have "\<dots> \<le> length (rev (filter (\<lambda>w. w \<noteq> ''__proto__'') words))"
    by (rule length_remdups_leq)
  also have "\<dots> \<le> length words" by simp
  finally show ?thesis by simp
qed

lemma prefix_results_prim:
  "list_all (\<lambda>w. js_read (prefix_results rt required_letter words) w
                   = Prim (truthy (js_read (prefix_results rt required_letter words) w)))
     (js_keys (prefix_results rt required_letter words))"
proof -
  have "js_read (prefix_results rt required_letter words) w
      = Prim (truthy (js_read (prefix_results rt required_letter words) w))"
    if "w \<in> set (js_keys (prefix_results rt required_letter words))" for w
  proof -
    from that have "w \<in> set (map fst (prefix_results rt required_letter words))"
      unfolding set_js_keys .
    from js_read_keyed[OF values_prefix_results this] show ?thesis by simp
  qed
  then show ?thesis by (simp add: list_all_iff)
qed

lemma score_step_prim:
  "js_read results w = Prim b \<Longrightarrow>
   score_step results reward w (s, t) =
     (js_add s (js_mul (Finite (if b then 1 else 0)) reward),
      js_add t (Finite (if b then 1 else 0)))"
  by (simp add: score_step_def)

lemma total_fold:
  assumes "list_all (\<lambda>w. js_read results w = Prim (truthy (js_read results w))) ks"
    and "0 \<le> c"
    and "c + int (length (filter (\<lambda>w. truthy (js_read results w)) ks)) \<le> 2 ^ 53"
  shows "snd (fold (score_step results reward) ks (s, Finite (of_int c)))
     = Finite (of_int (c + int (length (filter (\<lambda>w. truthy (js_read results w)) ks))))"
  using assms
proof (induction ks arbitrary: s c)
  case Nil
  then show ?case by simp
next
  case (Cons w ks)
  let ?T = "\<lambda>w. truthy (js_read results w)"
  let ?n = "int (length (filter ?T ks))"
  have r: "js_read results w = Prim (?T w)" using Cons.prems(1) by simp
  show ?case
  proof (cases "?T w")
    case True
    have b: "\<bar>c + 1\<bar> \<le> 2 ^ 53" using Cons.prems(2,3) True by simp
    have "js_add (Finite (of_int c)) (Finite 1) = round64 (of_int (c + 1))" by simp
    also have "\<dots> = Finite (of_int (c + 1))" by (rule round64_of_int[OF b])
    finally have st: "score_step results reward w (s, Finite (of_int c))
        = (js_add s (js_mul (Finite 1) reward), Finite (of_int (c + 1)))"
      using score_step_prim[OF r, of reward s "Finite (of_int c)"] True by simp
    have "snd (fold (score_step results reward) ks
             (js_add s (js_mul (Finite 1) reward), Finite (of_int (c + 1))))
        = Finite (of_int (c + 1 + ?n))"
      using Cons.prems True by (intro Cons.IH) simp_all
    then show ?thesis using st True by (simp add: add.commute add.left_commute)
  next
    case False
    have b: "\<bar>c\<bar> \<le> 2 ^ 53" using Cons.prems(2,3) False by simp
    have "js_add (Finite (of_int c)) (Finite 0) = round64 (of_int c)" by simp
    also have "\<dots> = Finite (of_int c)" by (rule round64_of_int[OF b])
    finally have st: "score_step results reward w (s, Finite (of_int c))
        = (js_add s (js_mul (Finite 0) reward), Finite (of_int c))"
      using score_step_prim[OF r, of reward s "Finite (of_int c)"] False by simp
    have "snd (fold (score_step results reward) ks
             (js_add s (js_mul (Finite 0) reward), Finite (of_int c)))
        = Finite (of_int (c + ?n))"
      using Cons.prems False by (intro Cons.IH) simp_all
    then show ?thesis using st False by simp
  qed
qed

lemma exact_fold:
  assumes "list_all (\<lambda>w. js_read results w = Prim (truthy (js_read results w))) ks"
    and "0 \<le> c"
    and "\<And>j. 0 \<le> j \<Longrightarrow>
            j \<le> c + int (length (filter (\<lambda>w. truthy (js_read results w)) ks)) \<Longrightarrow>
            is_double (of_int j * x)"
    and "c + int (length (filter (\<lambda>w. truthy (js_read results w)) ks)) \<le> 2 ^ 53"
  shows "fold (score_step results (Finite x)) ks (Finite (of_int c * x), Finite (of_int c))
     = (Finite (of_int (c + int (length (filter (\<lambda>w. truthy (js_read results w)) ks))) * x),
        Finite (of_int (c + int (length (filter (\<lambda>w. truthy (js_read results w)) ks)))))"
  using assms
proof (induction ks arbitrary: c)
  case Nil
  then show ?case by simp
next
  case (Cons w ks)
  let ?T = "\<lambda>w. truthy (js_read results w)"
  let ?n = "int (length (filter ?T ks))"
  have r: "js_read results w = Prim (?T w)" using Cons.prems(1) by simp
  have l: "list_all (\<lambda>w. js_read results w = Prim (?T w)) ks" using Cons.prems(1) by simp
  have n0: "0 \<le> ?n" by simp
  show ?case
  proof (cases "?T w")
    case True
    have tot: "c + int (length (filter ?T (w # ks))) = c + 1 + ?n" using True by simp
    have rep: "is_double (of_int j * x)" if "0 \<le> j" and "j \<le> c + 1 + ?n" for j
      using Cons.prems(3)[of j] that unfolding tot by simp
    have p4: "c + 1 + ?n \<le> 2 ^ 53" using Cons.prems(4) unfolding tot .
    have c1: "0 \<le> c + 1" using Cons.prems(2) by simp
    have bc: "\<bar>c + 1\<bar> \<le> 2 ^ 53" using c1 p4 n0 by simp
    have "is_double (of_int 1 * x)" by (rule rep) (use Cons.prems(2) n0 in simp_all)
    then have m: "js_mul (Finite 1) (Finite x) = Finite x" by (simp add: is_double_def)
    have "is_double (of_int (c + 1) * x)" by (rule rep[OF c1]) (use n0 in simp)
    then have "round64 (of_int (c + 1) * x) = Finite (of_int (c + 1) * x)"
      by (simp add: is_double_def)
    moreover have "of_int c * x + x = of_int (c + 1) * x" by (simp add: algebra_simps)
    ultimately have a: "js_add (Finite (of_int c * x)) (Finite x) = Finite (of_int (c + 1) * x)"
      by simp
    have "js_add (Finite (of_int c)) (Finite 1) = round64 (of_int (c + 1))" by simp
    also have "\<dots> = Finite (of_int (c + 1))" by (rule round64_of_int[OF bc])
    finally have t: "js_add (Finite (of_int c)) (Finite 1) = Finite (of_int (c + 1))" .
    have st: "score_step results (Finite x) w (Finite (of_int c * x), Finite (of_int c))
        = (Finite (of_int (c + 1) * x), Finite (of_int (c + 1)))"
      using score_step_prim[OF r, of "Finite x" "Finite (of_int c * x)" "Finite (of_int c)"]
        True m a t by simp
    have "fold (score_step results (Finite x)) ks
            (Finite (of_int (c + 1) * x), Finite (of_int (c + 1)))
        = (Finite (of_int (c + 1 + ?n) * x), Finite (of_int (c + 1 + ?n)))"
      by (rule Cons.IH[OF l c1 rep p4])
    then show ?thesis unfolding tot using st by simp
  next
    case False
    have tot: "c + int (length (filter ?T (w # ks))) = c + ?n" using False by simp
    have rep: "is_double (of_int j * x)" if "0 \<le> j" and "j \<le> c + ?n" for j
      using Cons.prems(3)[of j] that unfolding tot by simp
    have p4: "c + ?n \<le> 2 ^ 53" using Cons.prems(4) unfolding tot .
    have bc: "\<bar>c\<bar> \<le> 2 ^ 53" using Cons.prems(2) p4 n0 by simp
    have m: "js_mul (Finite 0) (Finite x) = Finite 0"
      by (simp add: round64_def)
    have "is_double (of_int c * x)" by (rule rep[OF Cons.prems(2)]) (use n0 in simp)
    then have a: "js_add (Finite (of_int c * x)) (Finite 0) = Finite (of_int c * x)"
      by (simp add: is_double_def)
    have "js_add (Finite (of_int c)) (Finite 0) = round64 (of_int c)" by simp
    also have "\<dots> = Finite (of_int c)" by (rule round64_of_int[OF bc])
    finally have t: "js_add (Finite (of_int c)) (Finite 0) = Finite (of_int c)" .
    have st: "score_step results (Finite x) w (Finite (of_int c * x), Finite (of_int c))
        = (Finite (of_int c * x), Finite (of_int c))"
      using score_step_prim[OF r, of "Finite x" "Finite (of_int c * x)" "Finite (of_int c)"]
        False m a t by simp
    have "fold (score_step results (Finite x)) ks
            (Finite (of_int c * x), Finite (of_int c))
        = (Finite (of_int (c + ?n) * x), Finite (of_int (c + ?n)))"
      by (rule Cons.IH[OF l Cons.prems(2) rep p4])
    then show ?thesis unfolding tot using st by simp
  qed
qed

lemma integer_multiples_are_doubles:
  assumes "n * \<bar>k\<bar> \<le> 2 ^ 53"
  shows "list_all (\<lambda>j. is_double (of_int j * of_int k)) [0..n]"
proof -
  have "is_double (of_int j * of_int k)" if "j \<in> set [0..n]" for j
  proof -
    from that have j: "0 \<le> j" "j \<le> n" by simp_all
    have "\<bar>j * k\<bar> \<le> 2 ^ 53" by (rule bounded_multiple[OF j assms])
    then have "round64 (of_int (j * k)) = Finite (of_int (j * k))" by (rule round64_of_int)
    then show ?thesis by (simp add: is_double_def)
  qed
  then show ?thesis by (simp add: list_all_iff)
qed

lemma someWords_own:
  "hasOwnProperty dictionaries lang \<Longrightarrow> \<exists>sw. someWords rt dictionaries lang prefix except count = Inr sw"
  by (auto simp: someWords_def hasOwnProperty_def)

lemma findWordsResults_Inr:
  assumes "findWordsResults rt dictionaries games lang level words = Inr r"
  shows "\<exists>ls st sw.
      getSettings dictionaries games lang level = Inr ls
    \<and> List.find (\<lambda>step. step_type step = ''findWords'') (steps ls) = Some st
    \<and> someWords rt dictionaries lang (letter ls) words 5 = Inr sw
    \<and> resp_results r = prefix_results rt (letter ls) words
    \<and> resp_someWords r = sw
    \<and> resp_score r = fst (scores (prefix_results rt (letter ls) words) (rewardPerWord st))
    \<and> resp_total_found r = snd (scores (prefix_results rt (letter ls) words) (rewardPerWord st))
    \<and> resp_success r = js_ge (resp_total_found r) (required st)
    \<and> resp_required r = required st \<and> resp_type r = step_type st \<and> resp_level r = Number rt level"
proof -
  from assms obtain ls where ls: "getSettings dictionaries games lang level = Inr ls"
    by (cases "getSettings dictionaries games lang level") (auto simp: findWordsResults_def)
  let ?i = "findIndex (\<lambda>step. step_type step = ''findWords'') (steps ls)"
  have i: "?i > - 1"
    using assms findWordsResults_unfold[OF ls, of rt words]
    by (auto simp: Let_def split: if_splits)
  then obtain st where st: "List.find (\<lambda>step. step_type step = ''findWords'') (steps ls) = Some st"
    using findIndex_gt_find by blast
  have st': "steps ls ! nat ?i = st" using findIndex_find_Some[OF st] by simp
  obtain sw where sw: "someWords rt dictionaries lang (letter ls) words 5 = Inr sw"
    using someWords_own[OF getSettings_Inr[OF ls]] by blast
  show ?thesis
    using assms findWordsResults_unfold[OF ls, of rt words] i st st' sw ls
    by (auto simp: Let_def split: prod.splits)
qed

lemma findWordsResults_returns:
  assumes "getSettings dictionaries games lang level = Inr ls"
    and "List.find (\<lambda>step. step_type step = ''findWords'') (steps ls) = Some st"
  shows "\<exists>r. findWordsResults rt dictionaries games lang level words = Inr r"
proof -
  obtain sw where sw: "someWords rt dictionaries lang (letter ls) words 5 = Inr sw"
    using someWords_own[OF getSettings_Inr[OF assms(1)]] by blast
  show ?thesis
    using findWordsResults_unfold[OF assms(1), of rt words] findIndex_find_Some[OF assms(2)] sw
    by (auto simp: Let_def split: prod.splits)
qed

lemma someWords_Inr:
  assumes "someWords rt dictionaries lang prefix except count = Inr sw"
  shows "length sw \<le> count
    \<and> (\<forall>w \<in> set sw. toLowerCase rt w \<notin> set (map (toLowerCase rt) except)
          \<and> startsWith (toLowerCase rt w) (toLowerCase rt prefix))"
proof -
  from assms obtain dictionary :: "json object" where
    sw: "sw = take count (filter (\<lambda>w. startsWith (toLowerCase rt w) (toLowerCase rt prefix)
                              \<and> toLowerCase rt w \<notin> set (map (toLowerCase rt) except))
                   (remdups (js_keys dictionary)))"
    by (auto simp: someWords_def split: option.splits)
  have "length sw \<le> count" using sw by simp
  moreover have "\<forall>w \<in> set sw. toLowerCase rt w \<notin> set (map (toLowerCase rt) except)
        \<and> startsWith (toLowerCase rt w) (toLowerCase rt prefix)"
  proof
    fix w assume "w \<in> set sw"
    then have "w \<in> set (filter (\<lambda>w. startsWith (toLowerCase rt w) (toLowerCase rt prefix)
                              \<and> toLowerCase rt w \<notin> set (map (toLowerCase rt) except))
                   (remdups (js_keys dictionary)))"
      unfolding sw by (rule in_set_takeD)
    then show "toLowerCase rt w \<notin> set (map (toLowerCase rt) except)
        \<and> startsWith (toLowerCase rt w) (toLowerCase rt prefix)" by simp
  qed
  ultimately show ?thesis by blast
qed

lemma distinct_js_keys: "distinct (map fst obj) \<Longrightarrow> distinct (js_keys obj)"
  by (auto simp: js_keys_def)

lemma js_keys_no_index:
  "list_all (\<lambda>k. \<not> is_array_index k) (map fst obj) \<Longrightarrow> js_keys obj = map fst obj"
proof -
  assume a: "list_all (\<lambda>k. \<not> is_array_index k) (map fst obj)"
  then have "filter is_array_index (map fst obj) = []"
    by (simp add: list_all_iff filter_empty_conv)
  moreover have "filter (\<lambda>k. \<not> is_array_index k) (map fst obj) = map fst obj"
    using a by (simp add: list_all_iff filter_id_conv)
  ultimately show ?thesis by (simp add: js_keys_def)
qed

lemma getSettings_language_not_supported:
  "\<not> checkLanguage dictionaries lang \<Longrightarrow>
   getSettings dictionaries games lang level = Inl (language_not_supported lang)"
  by (simp add: getSettings_def)

lemma getSettings_level_does_not_exist:
  "checkLanguage dictionaries lang \<Longrightarrow> map_of games lang = Some levels \<Longrightarrow>
   map_of levels level = None \<Longrightarrow>
   getSettings dictionaries games lang level = Inl (level_does_not_exist level lang)"
  by (simp add: getSettings_def)

lemma language_not_supported_neq_level_does_not_exist:
  "language_not_supported lang \<noteq> level_does_not_exist level lang'"
  by (simp add: language_not_supported_def level_does_not_exist_def)

text \<open>
  C10, amended. If a language is supported by the dictionary store and the level registry
  has no level collection for it, then \<open>getSettings\<close> throws a \<open>TypeError\<close> (a property
  access on \<open>undefined\<close>) and not the typed level-not-found error, and so does every
  request that reaches it: every \<open>settings\<close> request, every \<open>findWordsResults\<close> request,
  and every \<open>demoSettings\<close> request whose level is not \<open>>= 5\<close>. A \<open>demoSettings\<close> request
  with a level \<open>>= 5\<close> is refused before, with the error of code 401.
\<close>

theorem requests_without_level_collection:
  assumes "checkLanguage dictionaries lang" and "map_of games lang = None"
  shows "getSettings dictionaries games lang level = Inl TypeError
     \<and> settings dictionaries games lang level = Inl TypeError
     \<and> findWordsResults rt dictionaries games lang level words = Inl TypeError
     \<and> demoSettings rt dictionaries games lang level
         = (if js_ge (Number rt level) (Finite 5) then Inl (level_not_allowed level)
            else Inl TypeError)"
  using assms by (simp add: getSettings_def settings_def findWordsResults_def demoSettings_def)

theorem requests_without_level_collection_witness:
  "checkLanguage example_dictionaries ''en''
   \<and> map_of ([] :: games) ''en'' = None
   \<and> getSettings example_dictionaries [] ''en'' ''1'' = Inl TypeError
   \<and> settings example_dictionaries [] ''en'' ''1'' = Inl TypeError
   \<and> findWordsResults example_runtime example_dictionaries [] ''en'' ''1'' [''apple'']
       = Inl TypeError
   \<and> demoSettings example_runtime example_dictionaries [] ''en'' ''1'' = Inl TypeError"
proof -
  have c: "checkLanguage example_dictionaries ''en''" by code_simp
  have g: "map_of ([] :: games) ''en'' = None" by simp
  have n: "\<not> js_ge (Number example_runtime ''1'') (Finite 5)" by code_simp
  from requests_without_level_collection[OF c g, of "''1''" example_runtime "[''apple'']"] c n
  show ?thesis by simp
qed

text \<open>
  C10 as stated fails: for a supported language without a level collection, the
  \<open>demoSettings\<close> request for level 7 fails with the error of code 401, not with a
  \<open>TypeError\<close>.
\<close>

theorem demoSettings_not_TypeError_counterexample:
  "checkLanguage example_dictionaries ''en''
   \<and> map_of ([] :: games) ''en'' = None
   \<and> demoSettings example_runtime example_dictionaries [] ''en'' ''7''
       = Inl (MoleculerClientError ''Level 7 is not allowed to unauthenticated users'' 401
                (TypeFields [(''level'', ''is not allowed for unauthenticated users'')]) None)"
  by code_simp

text \<open>
  C6, evaluated. For a supported language without a level collection the code throws a
  \<open>TypeError\<close>, where the claim asks for the level-not-found error; with a level
  collection that lacks the level, and for an unsupported language, it raises the two
  typed errors.
\<close>

theorem getSettings_missing_collection_evaluation:
  "checkLanguage [(''en'', [(''apple'', JNum (Finite 1))])] ''en''
   \<and> getSettings [(''en'', [(''apple'', JNum (Finite 1))])] [] ''en'' ''1'' = Inl TypeError
   \<and> getSettings [(''en'', [(''apple'', JNum (Finite 1))])] [(''en'', [])] ''en'' ''1''
       = Inl (level_does_not_exist ''1'' ''en'')
   \<and> getSettings [(''en'', [(''apple'', JNum (Finite 1))])] [] ''xx'' ''1''
       = Inl (language_not_supported ''xx'')"
  by code_simp

text \<open>
  C1, evaluated. The word \<open>azzz\<close> starts with the required letter and is not in the
  dictionary: \<open>check\<close> wraps \<open>false\<close> for it. The claim makes it invalid; the code
  records it as valid and scores it, because the wrapper object that \<open>checkMultiple\<close>
  returns is truthy and \<open>&&\<close> then yields the prefix outcome.
\<close>

theorem findWordsResults_accepts_word_outside_dictionary:
  "check example_dictionaries ''en'' ''azzz'' = Inr \<lparr>result = BooleanObject False\<rparr>
   \<and> findWordsResults example_runtime example_dictionaries example_games ''en'' ''1'' [''azzz'']
     = Inr \<lparr>resp_level = Finite 1, resp_success = False, resp_required = Finite 2,
            resp_results = [(''azzz'', Prim True)],
            resp_someWords = [''apple'', ''ant''], resp_score = Finite 10,
            resp_total_found = Finite 1, resp_type = ''findWords''\<rparr>"
  by code_simp

text \<open>
  C3. For every result that \<open>findWordsResults\<close> returns, \<open>someWords\<close> is what
  \<open>languages.someWords\<close> gives for the required letter as prefix, the submitted words as
  exclusions and a count of 5: it has at most 5 words, none equal to a submitted word up
  to case, and each starts with the required letter up to case, where two strings are
  equal up to case when \<open>toLowerCase\<close>, whatever its definition, maps them to the same
  string.
\<close>

theorem someWords_bounded_excluding_submission:
  assumes "findWordsResults rt dictionaries games lang level words = Inr r"
  shows "\<exists>ls. getSettings dictionaries games lang level = Inr ls
    \<and> someWords rt dictionaries lang (letter ls) words 5 = Inr (resp_someWords r)
    \<and> length (resp_someWords r) \<le> 5
    \<and> (\<forall>w \<in> set (resp_someWords r).
          toLowerCase rt w \<notin> set (map (toLowerCase rt) words)
        \<and> startsWith (toLowerCase rt w) (toLowerCase rt (letter ls)))"
proof -
  from findWordsResults_Inr[OF assms] obtain ls sw where
    a: "getSettings dictionaries games lang level = Inr ls"
       "someWords rt dictionaries lang (letter ls) words 5 = Inr sw"
       "resp_someWords r = sw"
    by blast
  have "length sw \<le> 5" using someWords_Inr[OF a(2)] by simp
  moreover have "\<forall>w \<in> set sw. toLowerCase rt w \<notin> set (map (toLowerCase rt) words)
        \<and> startsWith (toLowerCase rt w) (toLowerCase rt (letter ls))"
    using someWords_Inr[OF a(2)] by simp
  ultimately show ?thesis using a by blast
qed

theorem someWords_bounded_excluding_submission_witness:
  "findWordsResults example_runtime example_dictionaries example_games ''en'' ''1''
      [''Apple'', ''bee'']
     = Inr \<lparr>resp_level = Finite 1, resp_success = False, resp_required = Finite 2,
            resp_results = [(''Apple'', Prim True), (''bee'', Prim False)],
            resp_someWords = [''ant''], resp_score = Finite 10, resp_total_found = Finite 1,
            resp_type = ''findWords''\<rparr>
   \<and> someWords example_runtime example_dictionaries ''en'' ''a'' [''Apple'', ''bee''] 5
       = Inr [''ant'']
   \<and> length [''ant''] \<le> 5"
proof -
  have e: "findWordsResults example_runtime example_dictionaries example_games ''en'' ''1''
      [''Apple'', ''bee'']
     = Inr \<lparr>resp_level = Finite 1, resp_success = False, resp_required = Finite 2,
            resp_results = [(''Apple'', Prim True), (''bee'', Prim False)],
            resp_someWords = [''ant''], resp_score = Finite 10, resp_total_found = Finite 1,
            resp_type = ''findWords''\<rparr>"
    by code_simp
  have g: "letter (projr (getSettings example_dictionaries example_games ''en'' ''1'')) = ''a''"
    by code_simp
  from someWords_bounded_excluding_submission[OF e] g e show ?thesis by auto
qed

text \<open>
  C4, amended. For a supported language and an existing level whose steps contain no
  step tagged \<open>findWords\<close>, \<open>findWordsResults\<close> fails with the error "Level ... does not
  exist for language ...", code 404, field \<open>level\<close>: the same error that \<open>getSettings\<close>
  raises when the level is absent from the language's collection.
\<close>

theorem no_findWords_step_is_level_does_not_exist:
  assumes "getSettings dictionaries games lang level = Inr ls"
    and "list_all (\<lambda>step. step_type step \<noteq> ''findWords'') (steps ls)"
  shows "findWordsResults rt dictionaries games lang level words
           = Inl (level_does_not_exist level lang)
    \<and> getSettings dictionaries [(lang, [])] lang level = Inl (level_does_not_exist level lang)"
proof -
  have "List.find (\<lambda>step. step_type step = ''findWords'') (steps ls) = None"
    using assms(2) by (simp add: find_None_iff list_all_iff)
  then have "findIndex (\<lambda>step. step_type step = ''findWords'') (steps ls) = - 1"
    by (rule findIndex_find_None)
  then have 1: "findWordsResults rt dictionaries games lang level words
           = Inl (level_does_not_exist level lang)"
    using findWordsResults_unfold[OF assms(1), of rt words] by (simp add: Let_def)
  have "checkLanguage dictionaries lang"
    using getSettings_Inr[OF assms(1)] by (simp add: checkLanguage_def)
  then have 2: "getSettings dictionaries [(lang, [])] lang level
      = Inl (level_does_not_exist level lang)"
    by (simp add: getSettings_def)
  from 1 2 show ?thesis by simp
qed

theorem no_findWords_step_is_level_does_not_exist_witness:
  "getSettings example_dictionaries example_games ''en'' ''2''
     = Inr \<lparr>letter = ''b'',
            steps = [\<lparr>step_type = ''quiz'', rewardPerWord = Finite 0, required = Finite 0\<rparr>]\<rparr>
   \<and> findWordsResults example_runtime example_dictionaries example_games ''en'' ''2''
        [''banana'']
     = Inl (level_does_not_exist ''2'' ''en'')"
proof -
  have g: "getSettings example_dictionaries example_games ''en'' ''2''
     = Inr \<lparr>letter = ''b'',
            steps = [\<lparr>step_type = ''quiz'', rewardPerWord = Finite 0, required = Finite 0\<rparr>]\<rparr>"
    by code_simp
  have s: "list_all (\<lambda>step. step_type step \<noteq> ''findWords'')
     (steps \<lparr>letter = ''b'',
             steps = [\<lparr>step_type = ''quiz'', rewardPerWord = Finite 0,
                       required = Finite 0\<rparr>]\<rparr>)"
    by simp
  from no_findWords_step_is_level_does_not_exist[OF g s, of example_runtime "[''banana'']"] g
  show ?thesis by simp
qed

text \<open>
  C4 as stated fails: a level without a \<open>findWords\<close> step and an absent level give
  the same error value, so the two conditions cannot be told apart.
\<close>

theorem step_not_applicable_counterexample:
  "findWordsResults example_runtime example_dictionaries example_games ''en'' ''2''
      [''banana'']
     = Inl (MoleculerClientError ''Level 2 does not exist for language en'' 404
              (TypeString []) (Some [(''level'', ''does not exist'')]))
   \<and> findWordsResults example_runtime example_dictionaries [(''en'', [])] ''en'' ''2''
      [''banana'']
     = Inl (MoleculerClientError ''Level 2 does not exist for language en'' 404
              (TypeString []) (Some [(''level'', ''does not exist'')]))"
  by code_simp

text \<open>
  C7, amended. For every result that \<open>findWordsResults\<close> returns, the \<open>results\<close>
  mapping has one key per distinct submitted spelling other than \<open>__proto__\<close>, which gets
  no entry. Its keys are enumerated with the spellings that are array indices first, in
  ascending numeric order, and then the other spellings in the order of their first
  submission; so when no submitted word is an array index or \<open>__proto__\<close>, the keys are the
  distinct spellings in the order of first submission. A spelling submitted again keeps
  its one key, and the last write wins: assigning twice to a key leaves the mapping as
  the second assignment alone leaves it, with the second value under the key.
\<close>

theorem results_one_entry_per_spelling:
  assumes "findWordsResults rt dictionaries games lang level words = Inr r"
  shows "distinct (js_keys (resp_results r))
    \<and> set (js_keys (resp_results r)) = set words - {''__proto__''}
    \<and> js_keys (resp_results r)
        = sort_key index_value
            (filter is_array_index
               (rev (remdups (rev (filter (\<lambda>w. w \<noteq> ''__proto__'') words)))))
          @ filter (\<lambda>k. \<not> is_array_index k)
              (rev (remdups (rev (filter (\<lambda>w. w \<noteq> ''__proto__'') words))))
    \<and> (list_all (\<lambda>w. \<not> is_array_index w \<and> w \<noteq> ''__proto__'') words
         \<longrightarrow> js_keys (resp_results r) = rev (remdups (rev words)))
    \<and> js_set word v2 (js_set word v1 obj) = js_set word v2 obj
    \<and> (word \<noteq> ''__proto__'' \<longrightarrow> js_read (js_set word v2 (js_set word v1 obj)) word = v2)"
proof -
  from findWordsResults_Inr[OF assms] obtain ls where
    ls: "getSettings dictionaries games lang level = Inr ls"
    and res: "resp_results r = prefix_results rt (letter ls) words"
    by blast
  let ?ks = "rev (remdups (rev (filter (\<lambda>w. w \<noteq> ''__proto__'') words)))"
  have keys: "map fst (resp_results r) = ?ks"
    unfolding res by (rule keys_prefix_results)
  have 1: "distinct (js_keys (resp_results r))"
    by (rule distinct_js_keys) (simp add: keys)
  have 2: "set (js_keys (resp_results r)) = set words - {''__proto__''}"
    unfolding set_js_keys keys by auto
  have 3: "js_keys (resp_results r)
        = sort_key index_value (filter is_array_index ?ks) @ filter (\<lambda>k. \<not> is_array_index k) ?ks"
    unfolding js_keys_def keys ..
  have 4: "list_all (\<lambda>w. \<not> is_array_index w \<and> w \<noteq> ''__proto__'') words
         \<longrightarrow> js_keys (resp_results r) = rev (remdups (rev words))"
  proof
    assume a: "list_all (\<lambda>w. \<not> is_array_index w \<and> w \<noteq> ''__proto__'') words"
    then have f: "filter (\<lambda>w. w \<noteq> ''__proto__'') words = words"
      by (simp add: list_all_iff filter_id_conv)
    have "list_all (\<lambda>k. \<not> is_array_index k) (map fst (resp_results r))"
      unfolding keys f using a by (simp add: list_all_iff)
    then have "js_keys (resp_results r) = map fst (resp_results r)"
      by (rule js_keys_no_index)
    then show "js_keys (resp_results r) = rev (remdups (rev words))"
      unfolding keys f .
  qed
  have 5: "js_set word v2 (js_set word v1 obj) = js_set word v2 obj"
    by (rule js_set_twice)
  have 6: "word \<noteq> ''__proto__'' \<longrightarrow> js_read (js_set word v2 (js_set word v1 obj)) word = v2"
    unfolding 5 by (simp add: js_read_js_set)
  from 1 2 3 4 5 6 show ?thesis by blast
qed

theorem results_one_entry_per_spelling_witness:
  "findWordsResults example_runtime example_dictionaries example_games ''en'' ''1''
      [''apple'', ''bee'', ''Apple'', ''apple'']
     = Inr \<lparr>resp_level = Finite 1, resp_success = True, resp_required = Finite 2,
            resp_results = [(''apple'', Prim True), (''bee'', Prim False),
                            (''Apple'', Prim True)],
            resp_someWords = [''ant''], resp_score = Finite 20, resp_total_found = Finite 2,
            resp_type = ''findWords''\<rparr>
   \<and> list_all (\<lambda>w. \<not> is_array_index w \<and> w \<noteq> ''__proto__'')
        [''apple'', ''bee'', ''Apple'', ''apple'']
   \<and> js_keys [(''apple'', Prim True), (''bee'', Prim False), (''Apple'', Prim True)]
       = [''apple'', ''bee'', ''Apple'']
   \<and> ''apple'' \<noteq> ''__proto__''
   \<and> js_read (js_set ''apple'' (Prim True) (js_set ''apple'' (Prim False) [])) ''apple''
       = Prim True"
proof -
  let ?ws = "[''apple'', ''bee'', ''Apple'', ''apple'']"
  let ?R = "\<lparr>resp_level = Finite 1, resp_success = True, resp_required = Finite 2,
            resp_results = [(''apple'', Prim True), (''bee'', Prim False),
                            (''Apple'', Prim True)],
            resp_someWords = [''ant''], resp_score = Finite 20, resp_total_found = Finite 2,
            resp_type = ''findWords''\<rparr>"
  have e: "findWordsResults example_runtime example_dictionaries example_games ''en'' ''1'' ?ws
     = Inr ?R"
    by code_simp
  have a: "list_all (\<lambda>w. \<not> is_array_index w \<and> w \<noteq> ''__proto__'') ?ws"
    by code_simp
  have n: "''apple'' \<noteq> ''__proto__''" by simp
  note t = results_one_entry_per_spelling[OF e, of "''apple''" "Prim True" "Prim False" "[]"]
  from t a have "js_keys (resp_results ?R) = rev (remdups (rev ?ws))" by blast
  moreover have "rev (remdups (rev ?ws)) = [''apple'', ''bee'', ''Apple'']" by code_simp
  moreover have "resp_results ?R
      = [(''apple'', Prim True), (''bee'', Prim False), (''Apple'', Prim True)]" by simp
  ultimately have k: "js_keys [(''apple'', Prim True), (''bee'', Prim False), (''Apple'', Prim True)]
       = [''apple'', ''bee'', ''Apple'']" by metis
  from t n have w: "js_read (js_set ''apple'' (Prim True) (js_set ''apple'' (Prim False) [])) ''apple''
       = Prim True" by blast
  from e a k n w show ?thesis by (intro conjI)
qed

text \<open>
  C7 as stated fails: submitted after \<open>b\<close>, the word \<open>1\<close> is enumerated before it; and
  the submitted word \<open>__proto__\<close> gets no entry.
\<close>

theorem results_input_order_counterexample:
  "map_sum id (\<lambda>r. js_keys (resp_results r))
     (findWordsResults example_runtime example_dictionaries example_games ''en'' ''1''
        [''b'', ''1''])
     = Inr [''1'', ''b'']
   \<and> map_sum id (\<lambda>r. js_keys (resp_results r))
     (findWordsResults example_runtime example_dictionaries example_games ''en'' ''1''
        [''__proto__''])
     = Inr []"
  by code_simp

text \<open>
  C9, amended. For every result that \<open>findWordsResults\<close> returns (for a submission of at
  most \<open>2^53\<close> words), \<open>total_found\<close> is the number \<open>n\<close> of words recorded valid, and
  \<open>score\<close> is what the loop accumulates in double arithmetic, adding for each word its
  validity times the \<open>rewardPerWord\<close> of the first step tagged \<open>findWords\<close>. Whenever
  every multiple of that reward from \<open>0\<close> times to \<open>n\<close> times is a double, every addition
  is exact and \<open>score\<close> is \<open>total_found\<close> times \<open>rewardPerWord\<close>; an integer reward \<open>k\<close>
  with \<open>n\<close> times the magnitude of \<open>k\<close> at most \<open>2^53\<close> is such a reward.
\<close>

theorem score_exact_for_representable_multiples:
  assumes "findWordsResults rt dictionaries games lang level words = Inr r"
    and "int (length words) \<le> 2 ^ 53"
  shows "\<exists>ls st n.
      getSettings dictionaries games lang level = Inr ls
    \<and> List.find (\<lambda>step. step_type step = ''findWords'') (steps ls) = Some st
    \<and> n = int (length (candidates (resp_results r)))
    \<and> resp_total_found r = Finite (of_int n)
    \<and> resp_score r = fst (scores (resp_results r) (rewardPerWord st))
    \<and> (\<forall>x. rewardPerWord st = Finite x
           \<longrightarrow> list_all (\<lambda>j. is_double (of_int j * x)) [0..n]
           \<longrightarrow> resp_score r = Finite (of_int n * x)
               \<and> resp_score r = js_mul (resp_total_found r) (rewardPerWord st))
    \<and> (\<forall>k. n * \<bar>k\<bar> \<le> 2 ^ 53
           \<longrightarrow> list_all (\<lambda>j. is_double (of_int j * of_int k)) [0..n])"
proof -
  from findWordsResults_Inr[OF assms(1)] obtain ls st where
    a: "getSettings dictionaries games lang level = Inr ls"
       "List.find (\<lambda>step. step_type step = ''findWords'') (steps ls) = Some st"
    and res: "resp_results r = prefix_results rt (letter ls) words"
    and sc0: "resp_score r = fst (scores (prefix_results rt (letter ls) words) (rewardPerWord st))"
    and tf0: "resp_total_found r
                = snd (scores (prefix_results rt (letter ls) words) (rewardPerWord st))"
    by auto
  let ?res = "resp_results r"
  let ?T = "\<lambda>w. truthy (js_read ?res w)"
  define n where "n = int (length (candidates ?res))"
  have n_filter: "int (length (filter ?T (js_keys ?res))) = n"
    by (simp add: n_def candidates_def)
  have n0: "0 \<le> n" by (simp add: n_def)
  have sc: "resp_score r = fst (scores ?res (rewardPerWord st))" unfolding res by (rule sc0)
  have tf: "resp_total_found r = snd (scores ?res (rewardPerWord st))" unfolding res by (rule tf0)
  have "length (filter ?T (js_keys ?res)) \<le> length (js_keys ?res)" by simp
  also have "\<dots> \<le> length words"
    unfolding length_js_keys res by (rule length_prefix_results)
  finally have "n \<le> int (length words)" unfolding n_filter[symmetric] by simp
  with assms(2) have n53: "0 + int (length (filter ?T (js_keys ?res))) \<le> 2 ^ 53"
    unfolding n_filter by simp
  have prim: "list_all (\<lambda>w. js_read ?res w = Prim (?T w)) (js_keys ?res)"
    unfolding res by (rule prefix_results_prim)
  have "snd (fold (score_step ?res (rewardPerWord st)) (js_keys ?res) (Finite 0, Finite (of_int 0)))
      = Finite (of_int (0 + int (length (filter ?T (js_keys ?res)))))"
    by (rule total_fold[OF prim _ n53]) simp
  then have tot: "resp_total_found r = Finite (of_int n)"
    unfolding tf scores_def n_filter by simp
  have ex: "resp_score r = Finite (of_int n * x)
           \<and> resp_score r = js_mul (resp_total_found r) (rewardPerWord st)"
    if x: "rewardPerWord st = Finite x"
      and rep: "list_all (\<lambda>j. is_double (of_int j * x)) [0..n]" for x
  proof -
    have rep': "is_double (of_int j * x)"
      if "0 \<le> j" and "j \<le> 0 + int (length (filter ?T (js_keys ?res)))" for j
      using rep that unfolding n_filter by (simp add: list_all_iff)
    have "fold (score_step ?res (Finite x)) (js_keys ?res)
            (Finite (of_int 0 * x), Finite (of_int 0))
        = (Finite (of_int (0 + int (length (filter ?T (js_keys ?res)))) * x),
           Finite (of_int (0 + int (length (filter ?T (js_keys ?res))))))"
      by (rule exact_fold[OF prim _ rep' n53]) simp_all
    then have s1: "resp_score r = Finite (of_int n * x)"
      unfolding sc scores_def x n_filter by simp
    have "is_double (of_int n * x)" using rep n0 by (simp add: list_all_iff)
    then have "js_mul (Finite (of_int n)) (Finite x) = Finite (of_int n * x)"
      by (simp add: is_double_def)
    with s1 tot x show ?thesis by simp
  qed
  have g: "\<forall>x. rewardPerWord st = Finite x
           \<longrightarrow> list_all (\<lambda>j. is_double (of_int j * x)) [0..n]
           \<longrightarrow> resp_score r = Finite (of_int n * x)
               \<and> resp_score r = js_mul (resp_total_found r) (rewardPerWord st)"
    using ex by blast
  have i: "\<forall>k. n * \<bar>k\<bar> \<le> 2 ^ 53
           \<longrightarrow> list_all (\<lambda>j. is_double (of_int j * of_int k)) [0..n]"
    using integer_multiples_are_doubles by blast
  from a n_def tot sc g i show ?thesis by blast
qed

theorem score_exact_for_representable_multiples_witness:
  "findWordsResults example_runtime example_dictionaries example_games ''en'' ''1''
      [''apple'', ''ant'', ''banana'', ''Apple'']
     = Inr \<lparr>resp_level = Finite 1, resp_success = True, resp_required = Finite 2,
            resp_results = [(''apple'', Prim True), (''ant'', Prim True),
                            (''banana'', Prim False), (''Apple'', Prim True)],
            resp_someWords = [], resp_score = Finite 30, resp_total_found = Finite 3,
            resp_type = ''findWords''\<rparr>
   \<and> int (length [''apple'', ''ant'', ''banana'', ''Apple'']) \<le> 2 ^ 53
   \<and> 3 * \<bar>10 :: int\<bar> \<le> 2 ^ 53
   \<and> list_all (\<lambda>j. is_double (of_int j * 10)) [0..3]
   \<and> Finite 30 = js_mul (Finite 3) (Finite 10)"
proof -
  let ?ws = "[''apple'', ''ant'', ''banana'', ''Apple'']"
  let ?R = "\<lparr>resp_level = Finite 1, resp_success = True, resp_required = Finite 2,
            resp_results = [(''apple'', Prim True), (''ant'', Prim True),
                            (''banana'', Prim False), (''Apple'', Prim True)],
            resp_someWords = [], resp_score = Finite 30, resp_total_found = Finite 3,
            resp_type = ''findWords''\<rparr>"
  have e: "findWordsResults example_runtime example_dictionaries example_games ''en'' ''1'' ?ws
     = Inr ?R"
    by code_simp
  have l: "int (length ?ws) \<le> 2 ^ 53" by simp
  have c: "int (length (candidates (resp_results ?R))) = 3" by code_simp
  have b: "3 * \<bar>10 :: int\<bar> \<le> 2 ^ 53" by simp
  have g: "getSettings example_dictionaries example_games ''en'' ''1''
     = Inr \<lparr>letter = ''a'',
            steps = [\<lparr>step_type = ''findWords'', rewardPerWord = Finite 10,
                      required = Finite 2\<rparr>]\<rparr>"
    by code_simp
  from score_exact_for_representable_multiples[OF e l] obtain ls st n where
    s: "getSettings example_dictionaries example_games ''en'' ''1'' = Inr ls"
       "List.find (\<lambda>step. step_type step = ''findWords'') (steps ls) = Some st"
       "n = int (length (candidates (resp_results ?R)))"
       "\<forall>x. rewardPerWord st = Finite x
           \<longrightarrow> list_all (\<lambda>j. is_double (of_int j * x)) [0..n]
           \<longrightarrow> resp_score ?R = Finite (of_int n * x)
               \<and> resp_score ?R = js_mul (resp_total_found ?R) (rewardPerWord st)"
       "\<forall>k. n * \<bar>k\<bar> \<le> 2 ^ 53
           \<longrightarrow> list_all (\<lambda>j. is_double (of_int j * of_int k)) [0..n]"
    by blast
  have n3: "n = 3" using s(3) c by simp
  from s(1,2) g have rw: "rewardPerWord st = Finite 10" by auto
  from s(5)[rule_format, of 10] b have d: "list_all (\<lambda>j. is_double (of_int j * 10)) [0..3]"
    unfolding n3 by simp
  from s(4)[rule_format, OF rw] d have "resp_score ?R = js_mul (resp_total_found ?R) (rewardPerWord st)"
    unfolding n3 by blast
  then have m: "Finite 30 = js_mul (Finite 3) (Finite 10)" unfolding rw by simp
  from e l b d m show ?thesis by (intro conjI)
qed

text \<open>
  C9 as stated fails: with the reward \<open>0.1\<close> and ten valid words, the ten additions give
  the score \<open>0.9999999999999999\<close>, while \<open>total_found\<close> times the reward is \<open>1\<close>.
\<close>

theorem score_is_not_total_found_times_reward_counterexample:
  "map_sum id (\<lambda>r. (resp_score r, resp_total_found r))
     (findWordsResults example_runtime two_letter_dictionaries example_games ''en'' ''3''
        [''ab'', ''ad'', ''ah'', ''ai'', ''am'', ''an'', ''as'', ''at'', ''aw'', ''ax''])
     = Inr (Finite (9007199254740991 / 9007199254740992), Finite 10)
   \<and> js_mul (Finite 10) (Finite (3602879701896397 / 36028797018963968)) = Finite 1
   \<and> round64 (1 / 10) = Finite (3602879701896397 / 36028797018963968)"
  by code_simp

end
